theory Spec2Isabelle
  imports Main "HOL-Library.AList"
begin

section \<open>The worker manager of dc\_federated (backend/\_worker\_manager.py)\<close>

text \<open>
  The class \<open>WorkerManager\<close> keeps three containers and one flag. The methods are modelled
  as functions that take the object (\<open>self\<close>) and return the result together with the
  object after the call. A Python \<open>dict\<close> is an association list: it keeps insertion
  order, an assignment to an existing key keeps the key's position
  (\<^const>\<open>AList.update\<close>), \<open>del\<close> is \<^const>\<open>AList.delete\<close>. An exception that leaves a method is
  the \<open>Inl\<close> side of a sum.
\<close>

subsection \<open>What the module imports\<close>

text \<open>
  \<open>binascii.unhexlify\<close>, which \<open>nacl.encoding.HexEncoder.decode\<close> calls: an even number of
  hexadecimal digits, upper or lower case, gives the bytes; anything else raises
  \<open>binascii.Error\<close>.
\<close>

definition hex_digit :: "char \<Rightarrow> nat option" where
  "hex_digit c =
     (let n = (of_char c :: nat) in
      if 48 \<le> n \<and> n \<le> 57 then Some (n - 48)
      else if 97 \<le> n \<and> n \<le> 102 then Some (n - 87)
      else if 65 \<le> n \<and> n \<le> 70 then Some (n - 55)
      else None)"

fun unhexlify :: "string \<Rightarrow> nat list option" where
  "unhexlify [] = Some []"
| "unhexlify [a] = None"
| "unhexlify (a # b # cs) =
     (case hex_digit a of
        None \<Rightarrow> None
      | Some h \<Rightarrow>
          (case hex_digit b of
             None \<Rightarrow> None
           | Some l \<Rightarrow>
               (case unhexlify cs of
                  None \<Rightarrow> None
                | Some bs \<Rightarrow> Some ((16 * h + l) # bs))))"

text \<open>
  \<open>nacl.signing.VerifyKey(key, encoder=HexEncoder)\<close>: decodes the text and raises unless
  the result has \<open>crypto_sign_PUBLICKEYBYTES = 32\<close> bytes. \<open>None\<close> stands for the raise;
  the verifying key is its 32 bytes.
\<close>

definition VerifyKey :: "string \<Rightarrow> nat list option" where
  "VerifyKey public_key_str =
     (case unhexlify public_key_str of
        None \<Rightarrow> None
      | Some key \<Rightarrow> if length key \<noteq> 32 then None else Some key)"

text \<open>
  The parts of the environment that the sources do not fix are parameters of the model:
  the constant \<open>INVALID_WORKER\<close> of \<open>_constants.py\<close>, the helper
  \<open>message_seriously_wrong\<close> of \<open>backend_utils.py\<close>, SHA-224 with its hexadecimal digest,
  and the signature check \<open>crypto_sign_open\<close> of libsodium (\<open>True\<close>: the signed message
  is accepted for the key; \<open>False\<close>: \<open>BadSignatureError\<close>).
\<close>

record extern =
  INVALID_WORKER :: string
  message_seriously_wrong :: "string \<Rightarrow> string"
  sha224_hexdigest :: "string \<Rightarrow> string"
  crypto_sign_open :: "nat list \<Rightarrow> nat list \<Rightarrow> bool"

text \<open>
  Modelled from the spec: the constants \<open>NO_AUTHENTICATION\<close> and \<open>AUTHENTICATED\<close> of
  \<open>_constants.py\<close> are not among the sources; the spec names them as the two reason codes
  of an authentication outcome.
\<close>

datatype auth_status = NO_AUTHENTICATION | AUTHENTICATED

datatype error = ValueError | OSError | BinasciiError | KeyError

subsection \<open>The object\<close>

record worker_manager =
  public_keys :: "(string \<times> nat list) list"
  allowed_workers :: "string list"
  registered_workers :: "(string \<times> bool) list"
  do_public_key_auth :: bool

text \<open>\<open>key in d\<close> for a dict \<open>d\<close>.\<close>

definition has_key :: "('k \<times> 'v) list \<Rightarrow> 'k \<Rightarrow> bool" where
  "has_key d k = (k \<in> set (map fst d))"

subsection \<open>The key store\<close>

definition add_public_key :: "worker_manager \<Rightarrow> string \<Rightarrow> bool \<times> worker_manager" where
  "add_public_key self public_key_str =
     (if \<not> do_public_key_auth self then (True, self)
      else if \<not> has_key (public_keys self) public_key_str then
        (case VerifyKey public_key_str of
           Some vk \<Rightarrow>
             (True, self\<lparr>public_keys := AList.update public_key_str vk (public_keys self)\<rparr>)
         | None \<Rightarrow> (False, self))
      else (True, self))"

definition delete_public_key :: "worker_manager \<Rightarrow> string \<Rightarrow> bool \<times> worker_manager" where
  "delete_public_key self public_key_str =
     (if \<not> do_public_key_auth self then (True, self)
      else if has_key (public_keys self) public_key_str then
        (True, self\<lparr>public_keys := AList.delete public_key_str (public_keys self)\<rparr>)
      else (True, self))"

definition get_keys :: "worker_manager \<Rightarrow> string list" where
  "get_keys self = map fst (public_keys self)"

subsection \<open>Identities, authentication, registration\<close>

text \<open>
  \<open>now\<close> is the text \<open>str(time.time())\<close> of the clock reading of the call; the clock is
  read in unsafe mode only.
\<close>

definition generate_id_for_worker :: "extern \<Rightarrow> string \<Rightarrow> worker_manager \<Rightarrow> string \<Rightarrow> string" where
  "generate_id_for_worker X now self public_key_str =
     (if do_public_key_auth self then public_key_str
      else sha224_hexdigest X now @ ''_unauthenticated'')"

text \<open>
  Only \<open>BadSignatureError\<close> is caught; the \<open>binascii.Error\<close> of the decoder leaves the
  method. The object is not changed.
\<close>

definition authenticate_worker ::
  "extern \<Rightarrow> worker_manager \<Rightarrow> string \<Rightarrow> string \<Rightarrow> error + (bool \<times> auth_status)" where
  "authenticate_worker X self public_key_str signed_message =
     (if \<not> do_public_key_auth self then Inr (True, NO_AUTHENTICATION)
      else if \<not> has_key (public_keys self) public_key_str then Inr (False, AUTHENTICATED)
      else
        (case map_of (public_keys self) public_key_str of
           None \<Rightarrow> Inl KeyError
         | Some vk \<Rightarrow>
             (case unhexlify signed_message of
                None \<Rightarrow> Inl BinasciiError
              | Some smessage \<Rightarrow>
                  if crypto_sign_open X vk smessage then Inr (True, AUTHENTICATED)
                  else Inr (False, AUTHENTICATED))))"

text \<open>The method \<open>_add_worker\<close>.\<close>

definition internal_add_worker ::
  "extern \<Rightarrow> string \<Rightarrow> worker_manager \<Rightarrow> string \<Rightarrow> (string \<times> bool) \<times> worker_manager" where
  "internal_add_worker X now self public_key_str =
     (let worker_id = generate_id_for_worker X now self public_key_str in
      if do_public_key_auth self \<and> \<not> has_key (public_keys self) public_key_str then
        ((message_seriously_wrong X ''trying to add worker without adding worker first'', False),
         self)
      else if worker_id \<notin> set (allowed_workers self) then
        ((worker_id, True),
         self\<lparr>allowed_workers := allowed_workers self @ [worker_id],
              registered_workers := AList.update worker_id False (registered_workers self)\<rparr>)
      else ((worker_id, False), self))"

definition add_worker ::
  "extern \<Rightarrow> string \<Rightarrow> worker_manager \<Rightarrow> string \<Rightarrow> (string \<times> bool) \<times> worker_manager" where
  "add_worker X now self public_key_str =
     (if do_public_key_auth self then
        (case add_public_key self public_key_str of
           (False, self1) \<Rightarrow> ((INVALID_WORKER X, False), self1)
         | (True, self1) \<Rightarrow> internal_add_worker X now self1 public_key_str)
      else internal_add_worker X now self public_key_str)"

text \<open>
  \<open>self.registered_workers[worker_id]\<close> raises \<open>KeyError\<close> when the identity has no
  entry.
\<close>

definition set_registration_status ::
  "extern \<Rightarrow> worker_manager \<Rightarrow> string \<Rightarrow> bool \<Rightarrow> (error + string \<times> bool) \<times> worker_manager" where
  "set_registration_status X self worker_id should_register =
     (if worker_id \<in> set (allowed_workers self) then
        (case map_of (registered_workers self) worker_id of
           None \<Rightarrow> (Inl KeyError, self)
         | Some old_status \<Rightarrow>
             (Inr (worker_id, True),
              self\<lparr>registered_workers :=
                     AList.update worker_id should_register (registered_workers self)\<rparr>))
      else (Inr (INVALID_WORKER X, False), self))"

text \<open>\<open>list.remove\<close> deletes the first occurrence: \<^const>\<open>remove1\<close>.\<close>

definition remove_worker ::
  "extern \<Rightarrow> worker_manager \<Rightarrow> string \<Rightarrow> (string \<times> bool) \<times> worker_manager" where
  "remove_worker X self worker_id =
     (if worker_id \<in> set (allowed_workers self) then
        ((worker_id, True),
         snd (delete_public_key
                (self\<lparr>allowed_workers := remove1 worker_id (allowed_workers self)\<rparr>)
                worker_id))
      else ((INVALID_WORKER X, False), self))"

definition authenticate_and_add_worker ::
  "extern \<Rightarrow> string \<Rightarrow> worker_manager \<Rightarrow> string \<Rightarrow> string
     \<Rightarrow> (error + string \<times> bool) \<times> worker_manager" where
  "authenticate_and_add_worker X now self public_key_str signed_phrase =
     (case authenticate_worker X self public_key_str signed_phrase of
        Inl e \<Rightarrow> (Inl e, self)
      | Inr (auth_success, _) \<Rightarrow>
          if auth_success then
            (case internal_add_worker X now self public_key_str of
               ((worker_id, _), self1) \<Rightarrow> set_registration_status X self1 worker_id True)
          else (Inr (INVALID_WORKER X, False), self))"

text \<open>
  One pair \<open>(worker_id, status)\<close> stands for the dict with the two keys
  \<open>WORKER_ID_KEY\<close> and \<open>REGISTRATION_STATUS_KEY\<close>.
\<close>

definition get_worker_list :: "worker_manager \<Rightarrow> (string \<times> bool) list" where
  "get_worker_list self = map (\<lambda>(worker_id, value). (worker_id, value)) (registered_workers self)"

definition is_worker_allowed :: "worker_manager \<Rightarrow> string \<Rightarrow> bool" where
  "is_worker_allowed self worker_id = (worker_id \<in> set (allowed_workers self))"

definition is_worker_registered :: "worker_manager \<Rightarrow> string \<Rightarrow> bool" where
  "is_worker_registered self worker_id =
     (has_key (registered_workers self) worker_id
      \<and> map_of (registered_workers self) worker_id = Some True)"

subsection \<open>Construction\<close>

text \<open>
  The loop of \<open>__init__\<close> over the lines of the key list. The mode is safe here, so
  \<open>add_worker\<close> does not read the clock.
\<close>

fun load_keys :: "extern \<Rightarrow> worker_manager \<Rightarrow> string list \<Rightarrow> worker_manager" where
  "load_keys X self [] = self"
| "load_keys X self (key # keys) =
     (case add_public_key self key of
        (True, self1) \<Rightarrow> load_keys X (snd (add_worker X [] self1 key)) keys
      | (False, self1) \<Rightarrow> load_keys X self1 keys)"

text \<open>
  The method \<open>__init__\<close>. \<open>files\<close> gives the lines (\<open>f.read().splitlines()\<close>) of the files
  that can be opened and read as text. For every other path \<open>open\<close> or \<open>read\<close> raises and
  the exception leaves the constructor; \<open>OSError\<close> stands for it.
\<close>

definition init ::
  "extern \<Rightarrow> (string \<Rightarrow> string list option) \<Rightarrow> bool \<Rightarrow> string option \<Rightarrow> error + worker_manager" where
  "init X files server_mode_safe key_list_file =
     (let self = \<lparr>public_keys = [], allowed_workers = [], registered_workers = [],
                  do_public_key_auth = False\<rparr> in
      if \<not> server_mode_safe then
        (if key_list_file \<noteq> None then Inl ValueError
         else Inr (self\<lparr>do_public_key_auth := False, public_keys := []\<rparr>))
      else
        (case key_list_file of
           None \<Rightarrow> Inr (self\<lparr>do_public_key_auth := True\<rparr>)
         | Some path \<Rightarrow>
             (case files path of
                None \<Rightarrow> Inl OSError
              | Some keys \<Rightarrow> Inr (load_keys X (self\<lparr>do_public_key_auth := True\<rparr>) keys))))"

subsection \<open>Sequences of calls\<close>

text \<open>
  The calls of the public methods that can change the object, each with its arguments
  (and the clock reading where the method may read the clock), and the object after a
  sequence of them. A call that raises leaves the object as the method left it.
\<close>

datatype call =
    Add_public_key string
  | Delete_public_key string
  | Add_worker string string
  | Remove_worker string
  | Set_registration_status string bool
  | Authenticate_and_add_worker string string string

fun step :: "extern \<Rightarrow> worker_manager \<Rightarrow> call \<Rightarrow> worker_manager" where
  "step X self (Add_public_key k) = snd (add_public_key self k)"
| "step X self (Delete_public_key k) = snd (delete_public_key self k)"
| "step X self (Add_worker now k) = snd (add_worker X now self k)"
| "step X self (Remove_worker w) = snd (remove_worker X self w)"
| "step X self (Set_registration_status w b) = snd (set_registration_status X self w b)"
| "step X self (Authenticate_and_add_worker now k sg) =
     snd (authenticate_and_add_worker X now self k sg)"

definition run :: "extern \<Rightarrow> worker_manager \<Rightarrow> call list \<Rightarrow> worker_manager" where
  "run X self calls = foldl (step X) self calls"

fun is_delete_public_key :: "call \<Rightarrow> bool" where
  "is_delete_public_key (Delete_public_key k) = True"
| "is_delete_public_key _ = False"

text \<open>
  A sequence of calls in which \<open>delete_public_key\<close> is only called for texts that are
  not allowed identities at the time of the call.
\<close>

fun delete_ok :: "worker_manager \<Rightarrow> call \<Rightarrow> bool" where
  "delete_ok self (Delete_public_key k) = (\<not> is_worker_allowed self k)"
| "delete_ok self _ = True"

fun deletes_ok :: "extern \<Rightarrow> worker_manager \<Rightarrow> call list \<Rightarrow> bool" where
  "deletes_ok X self [] = True"
| "deletes_ok X self (c # cs) = (delete_ok self c \<and> deletes_ok X (step X self c) cs)"

subsection \<open>Properties of the object\<close>

text \<open>Every allowed identity has an entry in \<open>registered_workers\<close>.\<close>

definition allowed_have_status :: "worker_manager \<Rightarrow> bool" where
  "allowed_have_status self =
     (\<forall>w \<in> set (allowed_workers self). has_key (registered_workers self) w)"

text \<open>I2 of the spec: every key of \<open>registered_workers\<close> is an allowed identity.\<close>

definition status_keys_allowed :: "worker_manager \<Rightarrow> bool" where
  "status_keys_allowed self =
     (set (map fst (registered_workers self)) \<subseteq> set (allowed_workers self))"

text \<open>
  I1 of the spec: in safe mode every allowed identity is a key of \<open>public_keys\<close>, and the
  verifying key stored under it is the one decoded from that text.
\<close>

definition allowed_have_key :: "worker_manager \<Rightarrow> bool" where
  "allowed_have_key self =
     (do_public_key_auth self \<longrightarrow>
        (\<forall>w \<in> set (allowed_workers self).
           has_key (public_keys self) w
           \<and> map_of (public_keys self) w = VerifyKey w))"

text \<open>Every stored verifying key is the one decoded from the text it is stored under.\<close>

definition keys_decoded :: "worker_manager \<Rightarrow> bool" where
  "keys_decoded self =
     (\<forall>k \<in> set (map fst (public_keys self)). map_of (public_keys self) k = VerifyKey k)"

subsection \<open>A concrete environment for evaluation\<close>

text \<open>
  Used only to evaluate the model on concrete inputs; every general theorem below holds
  for all environments. Its signature check accepts a signed message exactly when its
  bytes are those of the key, and its digest is the text itself.
\<close>

definition demo_extern :: extern where
  "demo_extern =
     \<lparr>INVALID_WORKER = ''__invalid_worker__'',
      message_seriously_wrong = (\<lambda>m. ''Something is seriously wrong: '' @ m),
      sha224_hexdigest = (\<lambda>s. s),
      crypto_sign_open = (\<lambda>vk smessage. smessage = vk)\<rparr>"

definition demo_key :: string where
  "demo_key = ''d75a980182b10ab7d54bfed3c964073a0ee172f3daa62325af021a68f707511a''"

definition no_files :: "string \<Rightarrow> string list option" where
  "no_files path = None"

definition demo_files :: "string \<Rightarrow> string list option" where
  "demo_files path = (if path = ''keys.txt'' then Some [demo_key, ''not a key''] else None)"

definition safe_start :: worker_manager where
  "safe_start =
     \<lparr>public_keys = [], allowed_workers = [], registered_workers = [],
      do_public_key_auth = True\<rparr>"

definition unsafe_start :: worker_manager where
  "unsafe_start =
     \<lparr>public_keys = [], allowed_workers = [], registered_workers = [],
      do_public_key_auth = False\<rparr>"

text \<open>The object that the safe-mode constructor builds from the file \<open>keys.txt\<close>.\<close>

definition demo_start :: worker_manager where
  "demo_start =
     \<lparr>public_keys =
        [(demo_key, [215, 90, 152, 1, 130, 177, 10, 183, 213, 75, 254, 211, 201, 100, 7, 58,
                     14, 225, 114, 243, 218, 166, 35, 37, 175, 2, 26, 104, 247, 7, 81, 26])],
      allowed_workers = [demo_key],
      registered_workers = [(demo_key, False)],
      do_public_key_auth = True\<rparr>"

section \<open>Lemmas\<close>

subsection \<open>Dictionaries\<close>

lemma has_key_update: "has_key (AList.update k v d) k' = (k' = k \<or> has_key d k')"
  by (auto simp: has_key_def dom_update)

lemma has_key_delete: "has_key (AList.delete k d) k' = (k' \<noteq> k \<and> has_key d k')"
  by (auto simp: has_key_def delete_keys)

lemma has_key_map_of: "has_key d k = (map_of d k \<noteq> None)"
  by (simp add: has_key_def map_of_eq_None_iff)

lemmas method_defs =
  add_public_key_def delete_public_key_def generate_id_for_worker_def
  internal_add_worker_def add_worker_def set_registration_status_def remove_worker_def
  authenticate_and_add_worker_def

subsection \<open>What one call preserves\<close>

lemma step_do_public_key_auth: "do_public_key_auth (step X s c) = do_public_key_auth s"
  by (cases c)
     (auto simp: method_defs Let_def split: option.splits sum.splits prod.splits bool.splits)

lemma step_allowed_have_status:
  "allowed_have_status s \<Longrightarrow> allowed_have_status (step X s c)"
  by (cases c)
     (auto simp: allowed_have_status_def method_defs has_key_update Let_def
           dest: notin_set_remove1
           split: option.splits sum.splits prod.splits bool.splits if_splits)

lemma step_distinct:
  "distinct (allowed_workers s) \<Longrightarrow> distinct (allowed_workers (step X s c))"
  by (cases c)
     (auto simp: method_defs Let_def
           split: option.splits sum.splits prod.splits bool.splits if_splits)

lemma keys_decoded_iff:
  "keys_decoded s =
     (\<forall>k. has_key (public_keys s) k \<longrightarrow> map_of (public_keys s) k = VerifyKey k)"
  by (auto simp: keys_decoded_def has_key_def)

lemma step_keys_decoded: "keys_decoded s \<Longrightarrow> keys_decoded (step X s c)"
  by (cases c)
     (auto simp: keys_decoded_iff method_defs has_key_update has_key_delete Let_def
                 update_conv' delete_conv
           split: option.splits sum.splits prod.splits bool.splits if_splits)

lemma allowed_have_key_iff:
  "allowed_have_key s =
     (do_public_key_auth s \<longrightarrow>
        (\<forall>w. w \<in> set (allowed_workers s) \<longrightarrow>
           has_key (public_keys s) w \<and> map_of (public_keys s) w = VerifyKey w))"
  by (auto simp: allowed_have_key_def)

lemma step_allowed_have_key:
  "allowed_have_key s \<Longrightarrow> keys_decoded s \<Longrightarrow> distinct (allowed_workers s)
     \<Longrightarrow> delete_ok s c \<Longrightarrow> allowed_have_key (step X s c)"
  by (cases c)
     (auto simp: allowed_have_key_iff keys_decoded_iff method_defs authenticate_worker_def
                 is_worker_allowed_def
                 has_key_update has_key_delete Let_def update_conv' delete_conv
           split: option.splits sum.splits prod.splits bool.splits if_splits)

subsection \<open>Sequences of calls and construction\<close>

lemma run_Nil: "run X s [] = s"
  by (simp add: run_def)

lemma run_Cons: "run X s (c # cs) = run X (step X s c) cs"
  by (simp add: run_def)

lemma run_append: "run X s (cs @ ds) = run X (run X s cs) ds"
  by (simp add: run_def)

lemma run_do_public_key_auth: "do_public_key_auth (run X s cs) = do_public_key_auth s"
  by (induction cs arbitrary: s) (simp_all add: run_Nil run_Cons step_do_public_key_auth)

lemma run_allowed_have_status:
  "allowed_have_status s \<Longrightarrow> allowed_have_status (run X s cs)"
  by (induction cs arbitrary: s) (simp_all add: run_Nil run_Cons step_allowed_have_status)

lemma run_distinct: "distinct (allowed_workers s) \<Longrightarrow> distinct (allowed_workers (run X s cs))"
  by (induction cs arbitrary: s) (simp_all add: run_Nil run_Cons step_distinct)

lemma run_keys_decoded: "keys_decoded s \<Longrightarrow> keys_decoded (run X s cs)"
  by (induction cs arbitrary: s) (simp_all add: run_Nil run_Cons step_keys_decoded)

lemma run_allowed_have_key:
  "allowed_have_key s \<Longrightarrow> keys_decoded s \<Longrightarrow> distinct (allowed_workers s)
     \<Longrightarrow> deletes_ok X s cs \<Longrightarrow> allowed_have_key (run X s cs)"
proof (induction cs arbitrary: s)
  case Nil
  then show ?case by (simp add: run_Nil)
next
  case (Cons c cs)
  have "allowed_have_key (step X s c)"
    using Cons.prems by (simp add: step_allowed_have_key)
  moreover have "keys_decoded (step X s c)"
    using Cons.prems by (simp add: step_keys_decoded)
  moreover have "distinct (allowed_workers (step X s c))"
    using Cons.prems by (simp add: step_distinct)
  ultimately show ?case
    using Cons.IH [of "step X s c"] Cons.prems(4) by (simp add: run_Cons)
qed

lemma no_delete_deletes_ok:
  "\<forall>c \<in> set cs. \<not> is_delete_public_key c \<Longrightarrow> deletes_ok X s cs"
proof (induction cs arbitrary: s)
  case Nil
  then show ?case by simp
next
  case (Cons c cs)
  then show ?case by (cases c) simp_all
qed

text \<open>The loop of the constructor is a sequence of calls.\<close>

lemma load_keys_run:
  "load_keys X s keys =
     run X s (concat (map (\<lambda>k. [Add_public_key k, Add_worker [] k]) keys))"
  by (induction keys arbitrary: s)
     (auto simp: run_def add_worker_def add_public_key_def
           split: prod.splits bool.splits option.splits if_splits)

lemma init_run:
  assumes "init X files server_mode_safe key_list_file = Inr s0"
  shows "\<exists>start cs. s0 = run X start cs
              \<and> public_keys start = [] \<and> allowed_workers start = []
              \<and> registered_workers start = []
              \<and> do_public_key_auth start = server_mode_safe
              \<and> (\<forall>c \<in> set cs. \<not> is_delete_public_key c)"
proof (cases server_mode_safe)
  case False
  with assms have "s0 = run X unsafe_start []"
    by (auto simp: init_def unsafe_start_def run_Nil split: if_splits)
  with False show ?thesis
    by (intro exI [of _ unsafe_start] exI [of _ "[]"]) (simp add: unsafe_start_def)
next
  case True
  show ?thesis
  proof (cases key_list_file)
    case None
    with True assms have "s0 = run X safe_start []"
      by (auto simp: init_def safe_start_def run_Nil)
    with True show ?thesis
      by (intro exI [of _ safe_start] exI [of _ "[]"]) (simp add: safe_start_def)
  next
    case (Some path)
    with True assms obtain keys where "s0 = load_keys X safe_start keys"
      by (auto simp: init_def safe_start_def split: option.splits)
    then have "s0 =
        run X safe_start (concat (map (\<lambda>k. [Add_public_key k, Add_worker [] k]) keys))"
      by (simp add: load_keys_run)
    with True show ?thesis
      by (intro exI [of _ safe_start]
            exI [of _ "concat (map (\<lambda>k. [Add_public_key k, Add_worker [] k]) keys)"])
         (auto simp: safe_start_def)
  qed
qed

lemma init_do_public_key_auth:
  assumes "init X files server_mode_safe key_list_file = Inr s0"
  shows "do_public_key_auth s0 = server_mode_safe"
  using init_run [OF assms] by (auto simp: run_do_public_key_auth)

lemma init_allowed_have_status:
  assumes "init X files server_mode_safe key_list_file = Inr s0"
  shows "allowed_have_status s0"
proof -
  from init_run [OF assms] obtain start cs where s0: "s0 = run X start cs"
    and "allowed_workers start = []" by blast
  then have "allowed_have_status start" by (simp add: allowed_have_status_def)
  then show ?thesis unfolding s0 by (rule run_allowed_have_status)
qed

lemma init_distinct:
  assumes "init X files server_mode_safe key_list_file = Inr s0"
  shows "distinct (allowed_workers s0)"
proof -
  from init_run [OF assms] obtain start cs where s0: "s0 = run X start cs"
    and "allowed_workers start = []" by blast
  then have "distinct (allowed_workers start)" by simp
  then show ?thesis unfolding s0 by (rule run_distinct)
qed

lemma init_keys_decoded:
  assumes "init X files server_mode_safe key_list_file = Inr s0"
  shows "keys_decoded s0"
proof -
  from init_run [OF assms] obtain start cs where s0: "s0 = run X start cs"
    and "public_keys start = []" by blast
  then have "keys_decoded start" by (simp add: keys_decoded_def)
  then show ?thesis unfolding s0 by (rule run_keys_decoded)
qed

lemma init_allowed_have_key:
  assumes "init X files server_mode_safe key_list_file = Inr s0"
  shows "allowed_have_key s0"
proof -
  from init_run [OF assms] obtain start cs where s0: "s0 = run X start cs"
    and e: "public_keys start = []" "allowed_workers start = []"
    and nd: "\<forall>c \<in> set cs. \<not> is_delete_public_key c" by blast
  from e have "allowed_have_key start" "keys_decoded start" "distinct (allowed_workers start)"
    by (simp_all add: allowed_have_key_def keys_decoded_def)
  moreover have "deletes_ok X start cs" using nd by (rule no_delete_deletes_ok)
  ultimately show ?thesis unfolding s0 by (rule run_allowed_have_key)
qed

subsection \<open>Evaluation on concrete inputs\<close>

lemma demo_key_valid:
  "VerifyKey demo_key =
     Some [215, 90, 152, 1, 130, 177, 10, 183, 213, 75, 254, 211, 201, 100, 7, 58, 14, 225,
           114, 243, 218, 166, 35, 37, 175, 2, 26, 104, 247, 7, 81, 26]"
  by (simp add: VerifyKey_def demo_key_def hex_digit_def)

lemma demo_key_unhexlify:
  "unhexlify demo_key =
     Some [215, 90, 152, 1, 130, 177, 10, 183, 213, 75, 254, 211, 201, 100, 7, 58, 14, 225,
           114, 243, 218, 166, 35, 37, 175, 2, 26, 104, 247, 7, 81, 26]"
  by (simp add: demo_key_def hex_digit_def)

lemma not_a_key_invalid: "VerifyKey ''not a key'' = None"
  by (simp add: VerifyKey_def hex_digit_def)

lemma init_safe_None: "init X files True None = Inr safe_start"
  by (simp add: init_def safe_start_def)

lemma init_unsafe_None: "init X files False None = Inr unsafe_start"
  by (simp add: init_def unsafe_start_def)

lemmas eval_defs =
  run_def safe_start_def unsafe_start_def method_defs has_key_def demo_key_valid
  is_worker_allowed_def is_worker_registered_def get_worker_list_def Let_def

lemma demo_files_init:
  "init demo_extern demo_files True (Some ''keys.txt'')
     = Inr (load_keys demo_extern safe_start [demo_key, ''not a key''])"
  by (simp add: init_def demo_files_def safe_start_def)

lemma not_a_key_neq: "''not a key'' \<noteq> demo_key" "demo_key \<noteq> ''not a key''"
  by (simp_all add: demo_key_def)

lemma demo_loaded:
  "load_keys demo_extern safe_start [demo_key, ''not a key''] =
     \<lparr>public_keys = [(demo_key, [215, 90, 152, 1, 130, 177, 10, 183, 213, 75, 254, 211, 201, 100, 7, 58, 14, 225,
           114, 243, 218, 166, 35, 37, 175, 2, 26, 104, 247, 7, 81, 26])], allowed_workers = [demo_key],
      registered_workers = [(demo_key, False)], do_public_key_auth = True\<rparr>"
  by (simp add: safe_start_def method_defs has_key_def demo_key_valid not_a_key_invalid not_a_key_neq Let_def)

lemma demo_init: "init demo_extern demo_files True (Some ''keys.txt'') = Inr demo_start"
  by (simp only: demo_files_init demo_loaded demo_start_def)

subsection \<open>What the defective methods do get right\<close>

lemma remove_worker_present:
  assumes "distinct (allowed_workers s)" and "w \<in> set (allowed_workers s)"
  shows "fst (remove_worker X s w) = (w, True)"
    and "\<not> is_worker_allowed (snd (remove_worker X s w)) w"
    and "remove_worker X (snd (remove_worker X s w)) w
           = ((INVALID_WORKER X, False), snd (remove_worker X s w))"
    and "registered_workers (snd (remove_worker X s w)) = registered_workers s"
  using assms
  by (auto simp: remove_worker_def delete_public_key_def is_worker_allowed_def)

lemma remove_worker_absent:
  "w \<notin> set (allowed_workers s) \<Longrightarrow> remove_worker X s w = ((INVALID_WORKER X, False), s)"
  by (simp add: remove_worker_def)

lemma authenticate_worker_returns:
  assumes "do_public_key_auth s" and "unhexlify sg \<noteq> None"
  shows "\<exists>ok. authenticate_worker X s k sg = Inr (ok, AUTHENTICATED)"
  using assms
  by (auto simp: authenticate_worker_def has_key_map_of split: option.splits)

text \<open>
  In a state that a safe-mode construction and calls of the public methods reach,
  whenever \<open>authenticate_worker\<close> returns, \<open>authenticate_and_add_worker\<close> does what its
  result says.
\<close>

lemma authenticate_and_add_worker_registers:
  assumes "init X files True key_list_file = Inr s0" and "s = run X s0 calls"
  shows "(\<not> has_key (public_keys s) k
            \<longrightarrow> authenticate_worker X s k sg = Inr (False, AUTHENTICATED))
         \<and> (\<forall>vk sm. map_of (public_keys s) k = Some vk \<and> unhexlify sg = Some sm
               \<longrightarrow> authenticate_worker X s k sg = Inr (crypto_sign_open X vk sm, AUTHENTICATED))
         \<and> (authenticate_worker X s k sg = Inr (True, AUTHENTICATED)
               \<longrightarrow> fst (authenticate_and_add_worker X now s k sg) = Inr (k, True)
                   \<and> is_worker_registered (snd (authenticate_and_add_worker X now s k sg)) k)
         \<and> (authenticate_worker X s k sg = Inr (False, AUTHENTICATED)
               \<longrightarrow> authenticate_and_add_worker X now s k sg = (Inr (INVALID_WORKER X, False), s))"
proof -
  have safe: "do_public_key_auth s"
    using assms by (simp add: run_do_public_key_auth init_do_public_key_auth)
  have inv: "allowed_have_status s"
    using assms by (simp add: init_allowed_have_status run_allowed_have_status)
  have 1: "authenticate_worker X s k sg = Inr (False, AUTHENTICATED)"
    if "\<not> has_key (public_keys s) k"
    using that safe by (simp add: authenticate_worker_def)
  have 2: "authenticate_worker X s k sg = Inr (crypto_sign_open X vk sm, AUTHENTICATED)"
    if "map_of (public_keys s) k = Some vk" "unhexlify sg = Some sm" for vk sm
    using that safe by (simp add: authenticate_worker_def has_key_map_of)
  have 3: "fst (authenticate_and_add_worker X now s k sg) = Inr (k, True)
           \<and> is_worker_registered (snd (authenticate_and_add_worker X now s k sg)) k"
    if ok: "authenticate_worker X s k sg = Inr (True, AUTHENTICATED)"
  proof -
    have key: "has_key (public_keys s) k"
      using ok safe by (auto simp: authenticate_worker_def split: if_splits)
    show ?thesis
    proof (cases "k \<in> set (allowed_workers s)")
      case True
      then obtain old where "map_of (registered_workers s) k = Some old"
        using inv by (auto simp: allowed_have_status_def has_key_map_of)
      with True key safe ok show ?thesis
        by (simp add: authenticate_and_add_worker_def internal_add_worker_def
              generate_id_for_worker_def set_registration_status_def is_worker_registered_def
              has_key_update update_conv')
    next
      case False
      with key safe ok show ?thesis
        by (simp add: authenticate_and_add_worker_def internal_add_worker_def
              generate_id_for_worker_def set_registration_status_def is_worker_registered_def
              has_key_update update_conv')
    qed
  qed
  have 4: "authenticate_and_add_worker X now s k sg = (Inr (INVALID_WORKER X, False), s)"
    if "authenticate_worker X s k sg = Inr (False, AUTHENTICATED)"
    using that by (simp add: authenticate_and_add_worker_def)
  from 1 2 3 4 show ?thesis by blast
qed

text \<open>
  In unsafe mode nothing is authenticated, and the identity of \<open>add_worker\<close> is a
  function of the clock reading alone.
\<close>

lemma unsafe_mode_add_worker:
  assumes "\<not> do_public_key_auth s"
  shows "authenticate_worker X s k sg = Inr (True, NO_AUTHENTICATION)
         \<and> fst (add_worker X now s k)
             = (sha224_hexdigest X now @ ''_unauthenticated'',
                sha224_hexdigest X now @ ''_unauthenticated'' \<notin> set (allowed_workers s))
         \<and> is_worker_allowed (snd (add_worker X now s k))
             (sha224_hexdigest X now @ ''_unauthenticated'')
         \<and> \<not> do_public_key_auth (snd (add_worker X now s k))
         \<and> (sha224_hexdigest X now \<noteq> sha224_hexdigest X now'
              \<and> sha224_hexdigest X now @ ''_unauthenticated'' \<notin> set (allowed_workers s)
              \<and> sha224_hexdigest X now' @ ''_unauthenticated'' \<notin> set (allowed_workers s)
             \<longrightarrow> fst (add_worker X now s k)
                   = (sha224_hexdigest X now @ ''_unauthenticated'', True)
                 \<and> fst (add_worker X now' (snd (add_worker X now s k)) k)
                   = (sha224_hexdigest X now' @ ''_unauthenticated'', True)
                 \<and> fst (fst (add_worker X now s k))
                   \<noteq> fst (fst (add_worker X now' (snd (add_worker X now s k)) k))
                 \<and> is_worker_allowed (snd (add_worker X now' (snd (add_worker X now s k)) k))
                     (sha224_hexdigest X now @ ''_unauthenticated'')
                 \<and> is_worker_allowed (snd (add_worker X now' (snd (add_worker X now s k)) k))
                     (sha224_hexdigest X now' @ ''_unauthenticated''))"
  using assms
  by (auto simp: authenticate_worker_def add_worker_def internal_add_worker_def
        generate_id_for_worker_def is_worker_allowed_def Let_def)

section \<open>The claims\<close>

text \<open>
  C1. For an allowed identity, \<open>remove_worker\<close> returns the identity with \<open>True\<close> and the
  identity is no longer allowed afterwards; the claim also says that it is no longer
  registered and that its entry of \<open>registered_workers\<close> is gone. The method does not touch
  \<open>registered_workers\<close>: after a safe-mode construction, \<open>add_worker\<close>,
  \<open>set_registration_status(_, True)\<close> and \<open>remove_worker\<close> of one valid key, the key is
  not allowed, is still registered, and still has its entry.
\<close>

theorem remove_worker_keeps_status:
  "init X no_files True None = Inr safe_start
   \<and> (let s = run X safe_start [Add_worker [] demo_key, Set_registration_status demo_key True];
          s' = snd (remove_worker X s demo_key)
      in is_worker_allowed s demo_key
         \<and> fst (remove_worker X s demo_key) = (demo_key, True)
         \<and> \<not> is_worker_allowed s' demo_key
         \<and> is_worker_registered s' demo_key
         \<and> registered_workers s' = [(demo_key, True)])"
  by (simp add: init_safe_None eval_defs)

text \<open>
  C2. I2 says that every key of \<open>registered_workers\<close> is allowed in every reachable state.
  After a safe-mode construction, \<open>add_worker\<close> and \<open>remove_worker\<close> of one valid key, the
  key is still a key of \<open>registered_workers\<close> and not allowed, and \<open>get_worker_list\<close>
  reports it.
\<close>

theorem remove_worker_breaks_status_keys_allowed:
  "init X no_files True None = Inr safe_start
   \<and> (let s = run X safe_start [Add_worker [] demo_key, Remove_worker demo_key]
      in \<not> status_keys_allowed s
         \<and> allowed_workers s = []
         \<and> get_worker_list s = [(demo_key, False)]
         \<and> \<not> is_worker_allowed s demo_key)"
  by (simp add: init_safe_None eval_defs status_keys_allowed_def)

text \<open>
  C3. When authentication fails, \<open>authenticate_and_add_worker\<close> is claimed to return
  \<open>(INVALID_WORKER, False)\<close>, a malformed signature encoding being such a failure. In
  safe mode, with the key stored and its identity allowed, a signed message that is not
  hexadecimal makes \<open>authenticate_worker\<close> raise the decoder's error;
  \<open>authenticate_and_add_worker\<close> calls it outside any \<open>try\<close>, so the error leaves this
  method too and nothing is returned. The object is unchanged.
\<close>

theorem authenticate_and_add_worker_raises:
  "init X no_files True None = Inr safe_start
   \<and> (let s = run X safe_start [Add_worker [] demo_key]
      in do_public_key_auth s
         \<and> has_key (public_keys s) demo_key
         \<and> is_worker_allowed s demo_key
         \<and> authenticate_worker X s demo_key ''zz'' = Inl BinasciiError
         \<and> authenticate_and_add_worker X now s demo_key ''zz'' = (Inl BinasciiError, s))"
  by (simp add: init_safe_None eval_defs authenticate_worker_def hex_digit_def)

text \<open>
  C4. In safe mode \<open>authenticate_worker\<close> is claimed to return for every signed message.
  With the key stored and a signed message that is not hexadecimal, the decoder's error
  is not caught and leaves the method.
\<close>

theorem authenticate_worker_raises:
  "init X no_files True None = Inr safe_start
   \<and> (let s = run X safe_start [Add_public_key demo_key]
      in do_public_key_auth s \<and> has_key (public_keys s) demo_key
         \<and> authenticate_worker X s demo_key ''zz'' = Inl BinasciiError)"
  by (simp add: init_safe_None eval_defs authenticate_worker_def hex_digit_def)

text \<open>
  C5, as the claim states it. I1 is claimed for every state that the public methods can
  reach, \<open>delete_public_key\<close> included. After the safe-mode construction from a key list
  with one valid key, \<open>delete_public_key\<close> of that key leaves the identity allowed and
  the key store empty.
\<close>

theorem delete_public_key_breaks_allowed_have_key:
  "init demo_extern demo_files True (Some ''keys.txt'') = Inr demo_start
   \<and> is_worker_allowed (run demo_extern demo_start [Delete_public_key demo_key]) demo_key
   \<and> public_keys (run demo_extern demo_start [Delete_public_key demo_key]) = []
   \<and> \<not> allowed_have_key (run demo_extern demo_start [Delete_public_key demo_key])"
  by (simp add: demo_init) (simp add: demo_start_def eval_defs allowed_have_key_def)

text \<open>
  C5, amended. After any construction and any sequence of calls of the public methods in
  which \<open>delete_public_key\<close> is only called for texts that are not allowed at that
  time, I1 holds: in safe mode every allowed identity is a key of \<open>public_keys\<close>, and
  the verifying key stored under it is the one decoded from the identity.
\<close>

theorem allowed_workers_have_key:
  assumes "init X files server_mode_safe key_list_file = Inr s0"
    and "deletes_ok X s0 calls"
  shows "allowed_have_key (run X s0 calls)
         \<and> (server_mode_safe \<longrightarrow>
              (\<forall>w \<in> set (allowed_workers (run X s0 calls)).
                 has_key (public_keys (run X s0 calls)) w
                 \<and> map_of (public_keys (run X s0 calls)) w = VerifyKey w))"
proof -
  have "allowed_have_key (run X s0 calls)"
    using assms
    by (simp add: run_allowed_have_key init_allowed_have_key init_keys_decoded init_distinct)
  moreover have "do_public_key_auth (run X s0 calls) = server_mode_safe"
    using assms(1) by (simp add: run_do_public_key_auth init_do_public_key_auth)
  ultimately show ?thesis by (simp add: allowed_have_key_def)
qed

theorem allowed_workers_have_key_witness:
  "init demo_extern demo_files True (Some ''keys.txt'') = Inr demo_start
   \<and> deletes_ok demo_extern demo_start
        [Remove_worker demo_key, Delete_public_key demo_key, Add_worker [] demo_key]
   \<and> allowed_workers (run demo_extern demo_start
        [Remove_worker demo_key, Delete_public_key demo_key, Add_worker [] demo_key])
       = [demo_key]
   \<and> allowed_have_key (run demo_extern demo_start
        [Remove_worker demo_key, Delete_public_key demo_key, Add_worker [] demo_key])
   \<and> has_key (public_keys (run demo_extern demo_start
        [Remove_worker demo_key, Delete_public_key demo_key, Add_worker [] demo_key])) demo_key"
proof -
  have ok: "deletes_ok demo_extern demo_start
        [Remove_worker demo_key, Delete_public_key demo_key, Add_worker [] demo_key]"
    by (simp add: demo_start_def eval_defs)
  have a: "allowed_workers (run demo_extern demo_start
        [Remove_worker demo_key, Delete_public_key demo_key, Add_worker [] demo_key])
       = [demo_key]"
    by (simp add: demo_start_def eval_defs)
  show ?thesis
    using allowed_workers_have_key [OF demo_init ok] ok a demo_init
    by simp
qed

text \<open>
  C6. In unsafe mode every \<open>add_worker\<close> is claimed to produce a new identity and to
  return it with \<open>True\<close>, as the docstring of \<open>generate_id_for_worker\<close> says. The
  identity is the digest of the clock reading: for every digest function, two calls that
  read the same clock value produce the same identity, and the second \<open>add_worker\<close>
  returns it with \<open>False\<close> and adds nothing. Two workers that register through
  \<open>authenticate_and_add_worker\<close> at the same clock reading are both given that one
  identity with \<open>True\<close>.
\<close>

theorem add_worker_same_clock_reading:
  "init X no_files False None = Inr unsafe_start
   \<and> fst (add_worker X now unsafe_start ''samekey'')
       = (sha224_hexdigest X now @ ''_unauthenticated'', True)
   \<and> fst (add_worker X now (snd (add_worker X now unsafe_start ''samekey'')) ''samekey'')
       = (sha224_hexdigest X now @ ''_unauthenticated'', False)
   \<and> allowed_workers
        (snd (add_worker X now (snd (add_worker X now unsafe_start ''samekey'')) ''samekey''))
       = [sha224_hexdigest X now @ ''_unauthenticated'']
   \<and> fst (authenticate_and_add_worker X now unsafe_start ''key of worker 1'' ''any'')
       = Inr (sha224_hexdigest X now @ ''_unauthenticated'', True)
   \<and> fst (authenticate_and_add_worker X now
             (snd (authenticate_and_add_worker X now unsafe_start ''key of worker 1'' ''any''))
             ''key of worker 2'' ''any'')
       = Inr (sha224_hexdigest X now @ ''_unauthenticated'', True)"
  by (simp add: init_unsafe_None)
     (simp add: unsafe_start_def method_defs authenticate_worker_def Let_def)

text \<open>
  C7. In safe mode, for a key text \<open>k\<close> that decodes to a verifying key and is not yet
  allowed, \<open>add_worker\<close> returns \<open>(k, True)\<close> and \<open>k\<close> is allowed afterwards; a second
  \<open>add_worker\<close> returns \<open>(k, False)\<close> and leaves the object as it was, \<open>k\<close> is still
  allowed and occurs exactly once in \<open>allowed_workers\<close>.
\<close>

theorem add_worker_twice:
  assumes "do_public_key_auth s" and "VerifyKey k \<noteq> None" and "k \<notin> set (allowed_workers s)"
  shows "fst (add_worker X now s k) = (k, True)
         \<and> is_worker_allowed (snd (add_worker X now s k)) k
         \<and> add_worker X now' (snd (add_worker X now s k)) k
             = ((k, False), snd (add_worker X now s k))
         \<and> is_worker_allowed (snd (add_worker X now' (snd (add_worker X now s k)) k)) k
         \<and> count_list (allowed_workers (snd (add_worker X now' (snd (add_worker X now s k)) k))) k
             = 1"
  using assms
  by (auto simp: method_defs is_worker_allowed_def has_key_update Let_def count_list_0_iff
           split: option.splits)

theorem add_worker_twice_witness:
  "do_public_key_auth safe_start \<and> VerifyKey demo_key \<noteq> None
   \<and> demo_key \<notin> set (allowed_workers safe_start)
   \<and> fst (add_worker demo_extern [] safe_start demo_key) = (demo_key, True)
   \<and> fst (add_worker demo_extern [] (snd (add_worker demo_extern [] safe_start demo_key))
             demo_key) = (demo_key, False)
   \<and> allowed_workers
        (snd (add_worker demo_extern [] (snd (add_worker demo_extern [] safe_start demo_key))
                demo_key)) = [demo_key]"
proof -
  have h: "do_public_key_auth safe_start" "VerifyKey demo_key \<noteq> None"
    "demo_key \<notin> set (allowed_workers safe_start)"
    by (simp_all add: safe_start_def demo_key_valid)
  have a: "allowed_workers (snd (add_worker demo_extern [] safe_start demo_key)) = [demo_key]"
    by (simp add: eval_defs)
  show ?thesis
    using add_worker_twice [OF h, of demo_extern "[]" "[]"] h a by simp
qed

text \<open>
  C8. Construction in unsafe mode with a key-list file raises the configuration error
  (\<open>ValueError\<close>), whatever the path and whatever the files hold; construction in unsafe
  mode without a key list succeeds, with the three containers empty.
\<close>

theorem init_unsafe:
  "init X files False (Some path) = Inl ValueError
   \<and> init X files False None =
       Inr \<lparr>public_keys = [], allowed_workers = [], registered_workers = [],
            do_public_key_auth = False\<rparr>"
  by (simp add: init_def)

text \<open>
  C9. The first branch of \<open>_add_worker\<close> (safe mode, key text not in the key store) is
  not taken from \<open>add_worker\<close> or from \<open>authenticate_and_add_worker\<close>: in the object on
  which \<open>add_worker\<close> calls \<open>_add_worker\<close>, which is the one \<open>add_public_key\<close> returned
  with \<open>True\<close>, the guard of the branch is false; it is false whenever
  \<open>authenticate_worker\<close> returned success; and the results of both entry points do not
  depend on \<open>message_seriously_wrong\<close>, the only thing the branch computes.
\<close>

theorem add_worker_fault_unreachable:
  "(\<forall>s1. add_public_key s k = (True, s1)
          \<longrightarrow> \<not> (do_public_key_auth s1 \<and> \<not> has_key (public_keys s1) k))
   \<and> (\<forall>m. authenticate_worker X s k sg = Inr (True, m)
          \<longrightarrow> \<not> (do_public_key_auth s \<and> \<not> has_key (public_keys s) k))
   \<and> add_worker (X\<lparr>message_seriously_wrong := f\<rparr>) now s k = add_worker X now s k
   \<and> authenticate_and_add_worker (X\<lparr>message_seriously_wrong := f\<rparr>) now s k sg
       = authenticate_and_add_worker X now s k sg"
proof -
  have 1: "\<not> (do_public_key_auth s1 \<and> \<not> has_key (public_keys s1) k)"
    if "add_public_key s k = (True, s1)" for s1
    using that by (auto simp: add_public_key_def has_key_update split: if_splits option.splits)
  have 2: "\<not> (do_public_key_auth s \<and> \<not> has_key (public_keys s) k)"
    if "authenticate_worker X s k sg = Inr (True, m)" for m
    using that by (auto simp: authenticate_worker_def split: if_splits)
  have 3: "add_worker (X\<lparr>message_seriously_wrong := f\<rparr>) now s k = add_worker X now s k"
    by (auto simp: add_worker_def add_public_key_def internal_add_worker_def
          generate_id_for_worker_def has_key_update Let_def split: option.splits)
  have 4: "authenticate_and_add_worker (X\<lparr>message_seriously_wrong := f\<rparr>) now s k sg
       = authenticate_and_add_worker X now s k sg"
    by (auto simp: authenticate_and_add_worker_def authenticate_worker_def
          internal_add_worker_def generate_id_for_worker_def set_registration_status_def Let_def
          split: option.splits)
  from 1 2 3 4 show ?thesis by blast
qed

theorem add_worker_fault_unreachable_witness:
  "add_public_key safe_start demo_key = (True, demo_start\<lparr>allowed_workers := [], registered_workers := []\<rparr>)
   \<and> has_key (public_keys (demo_start\<lparr>allowed_workers := [], registered_workers := []\<rparr>)) demo_key
   \<and> authenticate_worker demo_extern demo_start demo_key demo_key = Inr (True, AUTHENTICATED)
   \<and> has_key (public_keys demo_start) demo_key
   \<and> add_worker (demo_extern\<lparr>message_seriously_wrong := (\<lambda>m. [])\<rparr>) [] safe_start demo_key
       = add_worker demo_extern [] safe_start demo_key"
proof -
  have a: "add_public_key safe_start demo_key = (True, demo_start\<lparr>allowed_workers := [], registered_workers := []\<rparr>)"
    by (simp add: demo_start_def eval_defs)
  have b: "authenticate_worker demo_extern demo_start demo_key demo_key = Inr (True, AUTHENTICATED)"
    by (simp add: demo_start_def authenticate_worker_def has_key_def demo_key_unhexlify demo_extern_def)
  have c: "do_public_key_auth demo_start"
    "do_public_key_auth (demo_start\<lparr>allowed_workers := [], registered_workers := []\<rparr>)"
    by (simp_all add: demo_start_def)
  show ?thesis
    using add_worker_fault_unreachable [of safe_start demo_key demo_extern demo_key "\<lambda>m. []" "[]"]
      add_worker_fault_unreachable [of demo_start demo_key demo_extern demo_key "\<lambda>m. []" "[]"]
      a b c
    by simp
qed

text \<open>
  C10. After any construction and any sequence of calls of the public methods, every
  allowed identity has an entry in \<open>registered_workers\<close>, so the lookup of
  \<open>set_registration_status\<close> finds a status and the method returns the identity with
  \<open>True\<close>.
\<close>

theorem allowed_workers_have_status:
  assumes "init X files server_mode_safe key_list_file = Inr s0"
  shows "allowed_have_status (run X s0 calls)
         \<and> (\<forall>w \<in> set (allowed_workers (run X s0 calls)).
               \<exists>old_status. map_of (registered_workers (run X s0 calls)) w = Some old_status)
         \<and> (\<forall>w \<in> set (allowed_workers (run X s0 calls)).
               fst (set_registration_status X (run X s0 calls) w should_register)
                 = Inr (w, True))"
proof -
  define s where "s = run X s0 calls"
  have inv: "allowed_have_status s"
    unfolding s_def using assms by (simp add: init_allowed_have_status run_allowed_have_status)
  have look: "\<exists>old_status. map_of (registered_workers s) w = Some old_status"
    if "w \<in> set (allowed_workers s)" for w
    using inv that by (auto simp: allowed_have_status_def has_key_map_of)
  have "fst (set_registration_status X s w should_register) = Inr (w, True)"
    if "w \<in> set (allowed_workers s)" for w
    using look [OF that] that by (auto simp: set_registration_status_def)
  with inv look show ?thesis unfolding s_def by blast
qed

theorem allowed_workers_have_status_witness:
  "init demo_extern demo_files True (Some ''keys.txt'') = Inr demo_start
   \<and> allowed_workers (run demo_extern demo_start
        [Set_registration_status demo_key True, Remove_worker demo_key,
         Add_worker [] demo_key]) = [demo_key]
   \<and> allowed_have_status (run demo_extern demo_start
        [Set_registration_status demo_key True, Remove_worker demo_key,
         Add_worker [] demo_key])
   \<and> map_of (registered_workers (run demo_extern demo_start
        [Set_registration_status demo_key True, Remove_worker demo_key,
         Add_worker [] demo_key])) demo_key = Some False
   \<and> fst (set_registration_status demo_extern
        (run demo_extern demo_start
           [Set_registration_status demo_key True, Remove_worker demo_key,
            Add_worker [] demo_key]) demo_key True) = Inr (demo_key, True)"
proof -
  have a: "run demo_extern demo_start
        [Set_registration_status demo_key True, Remove_worker demo_key,
         Add_worker [] demo_key] = demo_start"
    by (simp add: demo_start_def eval_defs)
  show ?thesis
    using allowed_workers_have_status [OF demo_init,
      of "[Set_registration_status demo_key True, Remove_worker demo_key,
           Add_worker [] demo_key]" True]
    by (simp add: a demo_init) (simp add: demo_start_def)
qed

end
